theory Spec2Isabelle
  imports Main "HOL-Library.Word"
begin

section \<open>The quest event dispatch engine of quest-manager.go\<close>

subsection \<open>Event kinds\<close>

text \<open>
  \<^verbatim>\<open>type QuestEventType uint16\<close>, with the constants numbered by \<^verbatim>\<open>iota\<close> from
  \<^verbatim>\<open>EventSay = 0\<close> to the sentinel \<^verbatim>\<open>LargestEventId\<close>. Only the constants the
  development mentions are named here.
\<close>

type_synonym QuestEventType = "16 word"

definition EventSay :: QuestEventType where
  "EventSay = 0"

definition EventTrade :: QuestEventType where
  "EventTrade = 1"

definition EventDeath :: QuestEventType where
  "EventDeath = 2"

definition EventSpawn :: QuestEventType where
  "EventSpawn = 3"

definition EventTimer :: QuestEventType where
  "EventTimer = 11"

definition EventReadItem :: QuestEventType where
  "EventReadItem = 142"

definition LargestEventId :: QuestEventType where
  "LargestEventId = 143"

subsection \<open>Slices of strings\<close>

text \<open>
  A Go slice is nil or a view of a backing array: the array, the offset of the
  view in it, its length and its capacity. Two slices may view the same array, so
  the arrays live in a store of their own, indexed by address; an array is the
  function from its indices to its elements. \<open>Next\<close> is the first address not yet
  allocated.
\<close>

type_synonym addr = nat

record slice =
  arr :: addr
  off :: nat
  len :: nat
  cap :: nat

record arrays =
  Cells :: "addr \<Rightarrow> nat \<Rightarrow> string"
  Next :: addr

definition slice_len :: "slice option \<Rightarrow> nat" where
  "slice_len sl = (case sl of None \<Rightarrow> 0 | Some s \<Rightarrow> len s)"

definition slice_cap :: "slice option \<Rightarrow> nat" where
  "slice_cap sl = (case sl of None \<Rightarrow> 0 | Some s \<Rightarrow> cap s)"

text \<open>The elements a slice shows, read from the arrays.\<close>

definition elements :: "arrays \<Rightarrow> slice option \<Rightarrow> string list" where
  "elements A sl =
     (case sl of
        None \<Rightarrow> []
      | Some s \<Rightarrow> map (\<lambda>i. Cells A (arr s) (off s + i)) [0..<len s])"

text \<open>
  The slice expression \<^verbatim>\<open>s[:0]\<close>: nil stays nil; otherwise the same array, offset
  and capacity with length 0. No element is written.
\<close>

definition reslice0 :: "slice option \<Rightarrow> slice option" where
  "reslice0 sl = (case sl of None \<Rightarrow> None | Some s \<Rightarrow> Some (s\<lparr>len := 0\<rparr>))"

text \<open>Writing the values \<open>vals\<close> into an array from index \<open>i\<close> on.\<close>

definition write_cells :: "(nat \<Rightarrow> string) \<Rightarrow> nat \<Rightarrow> string list \<Rightarrow> (nat \<Rightarrow> string)" where
  "write_cells row i vals =
     (\<lambda>j. if i \<le> j \<and> j < i + length vals then vals ! (j - i) else row j)"

text \<open>
  The built-in \<^verbatim>\<open>append(s, vals...)\<close>. When the values fit the capacity they are
  written into the array of \<open>s\<close>, after its elements, and every slice that views
  those cells sees them. Otherwise a new array is allocated, holding the elements
  of \<open>s\<close> and then the values. The capacity of the new array is the runtime's
  choice, never less than the length: the choice is the parameter \<open>grow\<close> (from
  the old capacity and the length needed).
\<close>

definition go_append ::
  "(nat \<Rightarrow> nat \<Rightarrow> nat) \<Rightarrow> slice option \<Rightarrow> string list \<Rightarrow> arrays \<Rightarrow> slice option \<times> arrays" where
  "go_append grow sl vals A =
     (if slice_len sl + length vals \<le> slice_cap sl then
        (case sl of
           None \<Rightarrow> (None, A)
         | Some s \<Rightarrow>
             (Some (s\<lparr>len := len s + length vals\<rparr>),
              A\<lparr>Cells := (Cells A)
                (arr s := write_cells (Cells A (arr s)) (off s + len s) vals)\<rparr>))
      else
        (Some \<lparr>arr = Next A, off = 0, len = slice_len sl + length vals,
               cap = max (slice_len sl + length vals)
                       (grow (slice_cap sl) (slice_len sl + length vals))\<rparr>,
         A\<lparr>Cells := (Cells A)
             (Next A := write_cells (\<lambda>j. []) 0 (elements A sl @ vals)),
           Next := Suc (Next A)\<rparr>))"

subsection \<open>Event records\<close>

text \<open>
  The types of other packages are opaque: \<^verbatim>\<open>entity.Moblike\<close> (an interface),
  \<^verbatim>\<open>items.ItemInstance\<close>, \<^verbatim>\<open>model.Spawn2\<close>, the elements of \<^verbatim>\<open>[]interface{}\<close> and
  the implementations of the \<^verbatim>\<open>ZoneAccess\<close> interface. An interface value or a
  pointer is \<open>None\<close> when it is nil. The four pointers to slices are only stored
  and cleared by this package, never followed: each is \<open>None\<close> or the list it
  points to. \<^verbatim>\<open>StringArray\<close> is a slice proper, nil in the zero record.
\<close>

typedecl Moblike
typedecl ItemInstance
typedecl Spawn2
typedecl ZoneDatum
typedecl ZoneAccess

record QuestEvent =
  EventType :: QuestEventType
  Actor :: "Moblike option"
  Receiver :: "Moblike option"
  Item :: "ItemInstance list option"
  ZoneData :: "ZoneDatum list option"
  EncounterName :: string
  ExtraData :: "32 word"
  SpellID :: "32 word"
  ItemArray :: "ItemInstance list option"
  ActorArray :: "Spawn2 list option"
  StringArray :: "slice option"

text \<open>The composite literal \<^verbatim>\<open>QuestEvent{}\<close>: every field at its zero value.\<close>

definition QuestEvent_zero :: QuestEvent where
  "QuestEvent_zero =
     \<lparr>EventType = 0, Actor = None, Receiver = None, Item = None, ZoneData = None,
      EncounterName = [], ExtraData = 0, SpellID = 0, ItemArray = None,
      ActorArray = None, StringArray = None\<rparr>"

subsection \<open>Pointers, panics and outcomes\<close>

text \<open>
  Every method of \<^verbatim>\<open>QuestEvent\<close> has a pointer receiver and returns that pointer, and a
  handler is given a \<^verbatim>\<open>*QuestEvent\<close>. A pointer is nil (\<open>None\<close>) or the address of a
  record; the records live in a store indexed by address. Go has no dangling pointers,
  so the store is total.
\<close>

type_synonym ptr = "addr option"
type_synonym heap = "addr \<Rightarrow> QuestEvent"

text \<open>
  A call returns or panics. The panics of this file: the two explicit
  \<^verbatim>\<open>panic(fmt.Sprintf("arg %d is not ...", i))\<close> of \<^verbatim>\<open>Register\<close> (the argument position
  kept as a number), the run-time panic of an index out of range (index and
  length), the run-time panic of a nil dereference, and whatever a handler raises.
\<close>

datatype panic =
    ArgNotQuestEventType nat
  | ArgNotQuestHandler nat
  | IndexOutOfRange nat nat
  | NilDereference
  | Fault string

datatype 'a outcome = Returns 'a | Panics panic

subsection \<open>Handlers and the registry\<close>

text \<open>
  \<^verbatim>\<open>type QuestHandler func(*QuestEvent) bool\<close>. A handler is a closure: besides the
  event record behind its argument it may read and write everything it reaches
  through the zone (the type \<open>'w\<close>), and it may panic. It is a function from the
  pointer and the memory before the call to its outcome and the memory after it.
  A handler cannot be given the registry that stores it (the type would contain
  itself), so handlers that re-enter \<^verbatim>\<open>Register\<close> or \<^verbatim>\<open>Unregister\<close> are outside the model.
\<close>

record 'w memory =
  Events :: heap
  Zone :: 'w

type_synonym 'w QuestHandler = "ptr \<Rightarrow> 'w memory \<Rightarrow> bool outcome \<times> 'w memory"

text \<open>The nil function value: calling it is a nil dereference.\<close>

definition nil_handler :: "'w QuestHandler" where
  "nil_handler = (\<lambda>evt m. (Panics NilDereference, m))"

text \<open>
  What a call does besides computing: the operations on \<^verbatim>\<open>z.Mu\<close> (a
  \<^verbatim>\<open>sync.RWMutex\<close>, with its four methods) and the calls of handlers, in the order
  in which they happen.
\<close>

datatype 'w action =
    MuLock
  | MuUnlock
  | MuRLock
  | MuRUnlock
  | Call "'w QuestHandler" ptr

text \<open>
  \<^verbatim>\<open>ZoneQuestInterface\<close>. The mutex \<^verbatim>\<open>Mu\<close> has no field here: its use is recorded in
  the actions of each method. \<^verbatim>\<open>Handlers\<close> is a map of maps; a Go map is nil
  (\<open>None\<close>) or a table. An inner map is only ever made by \<^verbatim>\<open>Register\<close>, one per
  script id, so the inner maps are tables held by value, and \<^verbatim>\<open>z.Handlers[name] == nil\<close>
  is the absence of the key.
\<close>

record 'w ZoneQuestInterface =
  ZoneAccess :: "ZoneAccess option"
  Handlers :: "(string \<rightharpoonup> (QuestEventType \<rightharpoonup> 'w QuestHandler)) option"

definition SetZoneAccess ::
  "ZoneAccess option \<Rightarrow> 'w ZoneQuestInterface \<Rightarrow> 'w ZoneQuestInterface" where
  "SetZoneAccess za z = z\<lparr>ZoneAccess := za\<rparr>"

subsection \<open>Register\<close>

text \<open>
  The variadic \<^verbatim>\<open>events ...any\<close>: each element is a value of any type. The loop
  tells four cases apart: a \<^verbatim>\<open>QuestEventType\<close>, a \<^verbatim>\<open>QuestHandler\<close>, a plain
  \<^verbatim>\<open>func(*QuestEvent) bool\<close>, and everything else.
\<close>

datatype 'w any =
    QuestEventTypeV QuestEventType
  | QuestHandlerV "'w QuestHandler"
  | FuncV "'w QuestHandler"
  | OtherV

text \<open>
  \<^verbatim>\<open>for i := 0; i < len(events); i += 2 { ... }\<close>. The loop writes only
  \<^verbatim>\<open>z.Handlers[name]\<close>, which is not nil when the loop starts, so it runs here on
  that inner map; the map is written in place, so the writes made before a panic
  stay. \<^verbatim>\<open>events[i+1]\<close> is read with no check of the length: past the end it is
  the run-time panic.
\<close>

function Register_loop ::
  "nat \<Rightarrow> 'w any list \<Rightarrow> (QuestEventType \<rightharpoonup> 'w QuestHandler) \<Rightarrow>
   unit outcome \<times> (QuestEventType \<rightharpoonup> 'w QuestHandler)" where
  "Register_loop i events hs =
     (if i < length events then
        (case events ! i of
           QuestEventTypeV event \<Rightarrow>
             (if i + 1 < length events then
                (case events ! (i + 1) of
                   QuestHandlerV handler \<Rightarrow> Register_loop (i + 2) events (hs(event \<mapsto> handler))
                 | FuncV handler \<Rightarrow> Register_loop (i + 2) events (hs(event \<mapsto> handler))
                 | _ \<Rightarrow> (Panics (ArgNotQuestHandler (i + 1)), hs))
              else (Panics (IndexOutOfRange (i + 1) (length events)), hs))
         | _ \<Rightarrow> (Panics (ArgNotQuestEventType i), hs))
      else (Returns (), hs))"
  by pat_completeness auto
termination
  by (relation "measure (\<lambda>(i, events, hs). length events - i)") auto

declare Register_loop.simps [simp del]

definition Register ::
  "string \<Rightarrow> 'w any list \<Rightarrow> 'w ZoneQuestInterface \<Rightarrow>
   unit outcome \<times> 'w ZoneQuestInterface \<times> 'w action list" where
  "Register name events z =
     (let hs = (case Handlers z of None \<Rightarrow> Map.empty | Some m \<Rightarrow> m);
          inner = (case hs name of None \<Rightarrow> Map.empty | Some m \<Rightarrow> m);
          (r, inner') = Register_loop 0 events inner
      in (r, z\<lparr>Handlers := Some (hs(name \<mapsto> inner'))\<rparr>, [MuLock, MuUnlock]))"

subsection \<open>Unregister\<close>

text \<open>
  \<^verbatim>\<open>len(z.Handlers[name]) == 0\<close> is the number of keys of the inner map; the key
  type is finite, so this is the cardinality of its domain.
\<close>

definition Unregister ::
  "string \<Rightarrow> QuestEventType list \<Rightarrow> 'w ZoneQuestInterface \<Rightarrow>
   'w ZoneQuestInterface \<times> 'w action list" where
  "Unregister name events z =
     (case Handlers z of
        None \<Rightarrow> (z, [MuLock, MuUnlock])
      | Some hs \<Rightarrow>
          (case hs name of
             None \<Rightarrow> (z, [MuLock, MuUnlock])
           | Some inner \<Rightarrow>
               if length events = 0 then
                 (z\<lparr>Handlers := Some (hs(name := None))\<rparr>, [MuLock, MuUnlock])
               else
                 (let inner' = fold (\<lambda>event m. m(event := None)) events inner in
                  if card (dom inner') = 0 then
                    (z\<lparr>Handlers := Some (hs(name := None))\<rparr>, [MuLock, MuUnlock])
                  else
                    (z\<lparr>Handlers := Some (hs(name \<mapsto> inner'))\<rparr>, [MuLock, MuUnlock]))))"

subsection \<open>Invoke\<close>

text \<open>
  Reading a nil map gives \<^verbatim>\<open>ok == false\<close>. \<^verbatim>\<open>evt.EventType\<close> is read only once the
  script id is found; on a nil \<^verbatim>\<open>evt\<close> that read is the run-time panic. The body
  has no operation on \<^verbatim>\<open>z.Mu\<close>, no \<^verbatim>\<open>recover\<close> and no write to \<^verbatim>\<open>z\<close>.
\<close>

definition Invoke ::
  "string \<Rightarrow> ptr \<Rightarrow> 'w ZoneQuestInterface \<Rightarrow> 'w memory \<Rightarrow>
   bool outcome \<times> 'w ZoneQuestInterface \<times> 'w memory \<times> 'w action list" where
  "Invoke name evt z m =
     (case (case Handlers z of None \<Rightarrow> None | Some hs \<Rightarrow> hs name) of
        Some handlers \<Rightarrow>
          (case evt of
             None \<Rightarrow> (Panics NilDereference, z, m, [])
           | Some a \<Rightarrow>
               (case handlers (EventType (Events m a)) of
                  Some handler \<Rightarrow>
                    (let (r, m') = handler evt m in (r, z, m', [Call handler evt]))
                | None \<Rightarrow> (Returns False, z, m, [])))
      | None \<Rightarrow> (Returns False, z, m, []))"

subsection \<open>The methods of an event record\<close>

text \<open>
  Each method stores through its receiver and returns the receiver; on a nil
  receiver the store is the run-time panic.
\<close>

definition store :: "ptr \<Rightarrow> (QuestEvent \<Rightarrow> QuestEvent) \<Rightarrow> heap \<Rightarrow> ptr outcome \<times> heap" where
  "store e f h =
     (case e of
        None \<Rightarrow> (Panics NilDereference, h)
      | Some a \<Rightarrow> (Returns e, h(a := f (h a))))"

definition Reset :: "ptr \<Rightarrow> heap \<Rightarrow> ptr outcome \<times> heap" where
  "Reset e h = store e (\<lambda>_. QuestEvent_zero) h"

definition Type :: "ptr \<Rightarrow> QuestEventType \<Rightarrow> heap \<Rightarrow> ptr outcome \<times> heap" where
  "Type e t h = store e (\<lambda>r. r\<lparr>EventType := t\<rparr>) h"

definition SetActor :: "ptr \<Rightarrow> Moblike option \<Rightarrow> heap \<Rightarrow> ptr outcome \<times> heap" where
  "SetActor e a h = store e (\<lambda>r. r\<lparr>Actor := a\<rparr>) h"

definition SetReceiver :: "ptr \<Rightarrow> Moblike option \<Rightarrow> heap \<Rightarrow> ptr outcome \<times> heap" where
  "SetReceiver e r h = store e (\<lambda>x. x\<lparr>Receiver := r\<rparr>) h"

definition Spell :: "ptr \<Rightarrow> 32 word \<Rightarrow> heap \<Rightarrow> ptr outcome \<times> heap" where
  "Spell e sid h = store e (\<lambda>r. r\<lparr>SpellID := sid\<rparr>) h"

definition Extra :: "ptr \<Rightarrow> 32 word \<Rightarrow> heap \<Rightarrow> ptr outcome \<times> heap" where
  "Extra e d h = store e (\<lambda>r. r\<lparr>ExtraData := d\<rparr>) h"

definition Encounter :: "ptr \<Rightarrow> string \<Rightarrow> heap \<Rightarrow> ptr outcome \<times> heap" where
  "Encounter e name h = store e (\<lambda>r. r\<lparr>EncounterName := name\<rparr>) h"

text \<open>
  \<^verbatim>\<open>e.StringArray = e.StringArray[:0]\<close> and then
  \<^verbatim>\<open>e.StringArray = append(e.StringArray, vals...)\<close>: two stores to the field,
  the second with the slice that \<^verbatim>\<open>append\<close> returns, and the writes that
  \<^verbatim>\<open>append\<close> makes to the arrays.
\<close>

definition Strings ::
  "(nat \<Rightarrow> nat \<Rightarrow> nat) \<Rightarrow> ptr \<Rightarrow> string list \<Rightarrow> heap \<Rightarrow> arrays \<Rightarrow>
   ptr outcome \<times> heap \<times> arrays" where
  "Strings grow e vals h A =
     (case e of
        None \<Rightarrow> (Panics NilDereference, h, A)
      | Some a \<Rightarrow>
          (let h1 = h(a := (h a)\<lparr>StringArray := reslice0 (StringArray (h a))\<rparr>);
               (sl, A') = go_append grow (StringArray (h1 a)) vals A;
               h2 = h1(a := (h1 a)\<lparr>StringArray := sl\<rparr>)
           in (Returns e, h2, A')))"

subsection \<open>Reading a registry\<close>

text \<open>
  The zero value \<^verbatim>\<open>ZoneQuestInterface{}\<close>: no zone access and a nil map. This is
  the empty registry a zone instance starts from.
\<close>

definition ZoneQuestInterface_zero :: "'w ZoneQuestInterface" where
  "ZoneQuestInterface_zero = \<lparr>ZoneAccess = None, Handlers = None\<rparr>"

text \<open>The script ids that have an entry, and the handler registered for a pair.\<close>

definition script_ids :: "'w ZoneQuestInterface \<Rightarrow> string set" where
  "script_ids z = (case Handlers z of None \<Rightarrow> {} | Some hs \<Rightarrow> dom hs)"

definition handler_for ::
  "'w ZoneQuestInterface \<Rightarrow> string \<Rightarrow> QuestEventType \<Rightarrow> 'w QuestHandler option" where
  "handler_for z name kind =
     (case Handlers z of
        None \<Rightarrow> None
      | Some hs \<Rightarrow> (case hs name of None \<Rightarrow> None | Some inner \<Rightarrow> inner kind))"

text \<open>No empty residue: no script id is mapped to a map without keys.\<close>

definition no_empty_residue :: "'w ZoneQuestInterface \<Rightarrow> bool" where
  "no_empty_residue z = (case Handlers z of None \<Rightarrow> True | Some hs \<Rightarrow> Map.empty \<notin> ran hs)"

subsection \<open>Argument sequences of Register\<close>

text \<open>
  The specification's well-formed argument sequence: an even number of elements,
  alternating an event kind and a handler.
\<close>

fun is_kind :: "'w any \<Rightarrow> bool" where
  "is_kind (QuestEventTypeV _) = True"
| "is_kind _ = False"

fun is_handler :: "'w any \<Rightarrow> bool" where
  "is_handler (QuestHandlerV _) = True"
| "is_handler (FuncV _) = True"
| "is_handler _ = False"

fun well_formed :: "'w any list \<Rightarrow> bool" where
  "well_formed [] = True"
| "well_formed [x] = False"
| "well_formed (k # h # rest) = (is_kind k \<and> is_handler h \<and> well_formed rest)"

text \<open>
  The pairs at the front of an argument sequence, up to the first position that is
  missing or of the wrong type, and the map they make (a later pair wins).
\<close>

fun leading_pairs :: "'w any list \<Rightarrow> (QuestEventType \<times> 'w QuestHandler) list" where
  "leading_pairs (QuestEventTypeV k # QuestHandlerV h # rest) = (k, h) # leading_pairs rest"
| "leading_pairs (QuestEventTypeV k # FuncV h # rest) = (k, h) # leading_pairs rest"
| "leading_pairs _ = []"

definition installed :: "'w any list \<Rightarrow> (QuestEventType \<rightharpoonup> 'w QuestHandler)" where
  "installed events = map_of (rev (leading_pairs events))"

subsection \<open>Sequences of calls\<close>

text \<open>
  A client's calls, one after the other. A panic ends the call it happens in and
  not the sequence: the next call sees the registry and the memory that the
  panicking call left, as a caller that recovers does.
\<close>

datatype 'w op =
    OpRegister string "'w any list"
  | OpUnregister string "QuestEventType list"
  | OpInvoke string ptr

fun step ::
  "'w op \<Rightarrow> 'w ZoneQuestInterface \<times> 'w memory \<Rightarrow> 'w ZoneQuestInterface \<times> 'w memory" where
  "step (OpRegister name events) (z, m) = (fst (snd (Register name events z)), m)"
| "step (OpUnregister name events) (z, m) = (fst (Unregister name events z), m)"
| "step (OpInvoke name evt) (z, m) =
     (case Invoke name evt z m of (r, z', m', acts) \<Rightarrow> (z', m'))"

definition run ::
  "'w op list \<Rightarrow> 'w ZoneQuestInterface \<times> 'w memory \<Rightarrow> 'w ZoneQuestInterface \<times> 'w memory" where
  "run ops s = fold step ops s"

text \<open>A call that may change the handler of the pair \<open>(s, k)\<close>.\<close>

fun touches :: "string \<Rightarrow> QuestEventType \<Rightarrow> 'w op \<Rightarrow> bool" where
  "touches s k (OpRegister name events) = (name = s \<and> QuestEventTypeV k \<in> set events)"
| "touches s k (OpUnregister name events) = (name = s \<and> (events = [] \<or> k \<in> set events))"
| "touches s k (OpInvoke name evt) = False"

text \<open>
  A call that is not a \<^verbatim>\<open>Register\<close>, or a \<^verbatim>\<open>Register\<close> whose arguments begin with a
  kind and a handler or whose script id has an entry in the registry it is called
  on; and a sequence in which every call is such, each on the registry that the
  calls before it left.
\<close>

fun fills_or_finds :: "'w op \<Rightarrow> 'w ZoneQuestInterface \<Rightarrow> bool" where
  "fills_or_finds (OpRegister name events) z =
     (leading_pairs events \<noteq> [] \<or> name \<in> script_ids z)"
| "fills_or_finds (OpUnregister name events) z = True"
| "fills_or_finds (OpInvoke name evt) z = True"

fun fills_or_finds_along ::
  "'w op list \<Rightarrow> 'w ZoneQuestInterface \<times> 'w memory \<Rightarrow> bool" where
  "fills_or_finds_along [] s = True"
| "fills_or_finds_along (c # ops) s =
     (fills_or_finds c (fst s) \<and> fills_or_finds_along ops (step c s))"

text \<open>No empty residue before the sequence and after each of its calls.\<close>

fun no_empty_residue_along ::
  "'w op list \<Rightarrow> 'w ZoneQuestInterface \<times> 'w memory \<Rightarrow> bool" where
  "no_empty_residue_along [] s = no_empty_residue (fst s)"
| "no_empty_residue_along (c # ops) s =
     (no_empty_residue (fst s) \<and> no_empty_residue_along ops (step c s))"

text \<open>
  The registry after \<^verbatim>\<open>Register(s, k, v1)\<close> followed by \<^verbatim>\<open>Register(s, k, v2)\<close>.
\<close>

definition registered_twice ::
  "string \<Rightarrow> QuestEventType \<Rightarrow> 'w any \<Rightarrow> 'w any \<Rightarrow> 'w ZoneQuestInterface \<Rightarrow>
   'w ZoneQuestInterface" where
  "registered_twice s k v1 v2 z =
     fst (snd (Register s [QuestEventTypeV k, v2]
       (fst (snd (Register s [QuestEventTypeV k, v1] z)))))"

subsection \<open>Example handlers and memories\<close>

text \<open>
  A handler that sets a flag of the zone and reports the event handled, one that
  declines, and one that faults.
\<close>

definition sets_flag :: "bool QuestHandler" where
  "sets_flag = (\<lambda>evt m. (Returns True, m\<lparr>Zone := True\<rparr>))"

definition declines :: "bool QuestHandler" where
  "declines = (\<lambda>evt m. (Returns False, m))"

definition faulty :: "bool QuestHandler" where
  "faulty = (\<lambda>evt m. (Panics (Fault ''script error''), m))"

text \<open>
  A memory with the flag down: the record at address 0 is a death event, the
  record at address 1 a spawn event, every other record is zero.
\<close>

definition example_memory :: "bool memory" where
  "example_memory =
     \<lparr>Events = (\<lambda>a. QuestEvent_zero)
        (0 := QuestEvent_zero\<lparr>EventType := EventDeath\<rparr>,
         1 := QuestEvent_zero\<lparr>EventType := EventSpawn\<rparr>),
      Zone = False\<rparr>"

text \<open>
  The registry after \<^verbatim>\<open>Register("rat1", EventDeath, h)\<close> on the zero value, with
  the flag-setting handler and with the faulting one.
\<close>

definition rat1_registry :: "bool ZoneQuestInterface" where
  "rat1_registry =
     fst (snd (Register ''rat1'' [QuestEventTypeV EventDeath, QuestHandlerV sets_flag]
       ZoneQuestInterface_zero))"

definition faulty_registry :: "bool ZoneQuestInterface" where
  "faulty_registry =
     fst (snd (Register ''rat1'' [QuestEventTypeV EventDeath, FuncV faulty]
       ZoneQuestInterface_zero))"

text \<open>A registry with two kinds under \<open>rat1\<close> and one under \<open>goblin\<close>.\<close>

definition two_kinds_registry :: "bool ZoneQuestInterface" where
  "two_kinds_registry =
     \<lparr>ZoneAccess = None,
      Handlers = Some [''rat1'' \<mapsto> [EventDeath \<mapsto> sets_flag, EventSpawn \<mapsto> declines],
                       ''goblin'' \<mapsto> [EventSay \<mapsto> faulty]]\<rparr>"

text \<open>
  Two records whose string slices view the same array, as after the struct copy
  \<^verbatim>\<open>*e1 = *e0\<close>: the array at address 5 holds \<open>a\<close> and \<open>b\<close>.
\<close>

definition shared_arrays :: arrays where
  "shared_arrays =
     \<lparr>Cells = (\<lambda>p j. [])(5 := write_cells (\<lambda>j. []) 0 [''a'', ''b'']), Next = 6\<rparr>"

definition shared_heap :: heap where
  "shared_heap =
     (\<lambda>p. QuestEvent_zero)
       (0 := QuestEvent_zero\<lparr>StringArray := Some \<lparr>arr = 5, off = 0, len = 2, cap = 2\<rparr>\<rparr>,
        1 := QuestEvent_zero\<lparr>StringArray := Some \<lparr>arr = 5, off = 0, len = 2, cap = 2\<rparr>\<rparr>)"

section \<open>Properties\<close>

subsection \<open>The loop of Register\<close>

text \<open>One lemma for each way through the body of the loop.\<close>

lemma Register_loop_end:
  "\<not> i < length events \<Longrightarrow> Register_loop i events hs = (Returns (), hs)"
  by (subst Register_loop.simps) simp

lemma Register_loop_QuestHandlerV:
  "Suc i < length events \<Longrightarrow> events ! i = QuestEventTypeV k \<Longrightarrow>
   events ! Suc i = QuestHandlerV h \<Longrightarrow>
   Register_loop i events hs = Register_loop (i + 2) events (hs(k \<mapsto> h))"
  by (subst Register_loop.simps) simp

lemma Register_loop_FuncV:
  "Suc i < length events \<Longrightarrow> events ! i = QuestEventTypeV k \<Longrightarrow>
   events ! Suc i = FuncV h \<Longrightarrow>
   Register_loop i events hs = Register_loop (i + 2) events (hs(k \<mapsto> h))"
  by (subst Register_loop.simps) simp

lemma Register_loop_not_kind:
  "i < length events \<Longrightarrow> \<not> is_kind (events ! i) \<Longrightarrow>
   Register_loop i events hs = (Panics (ArgNotQuestEventType i), hs)"
  by (subst Register_loop.simps) (cases "events ! i"; simp)

lemma Register_loop_odd:
  "i < length events \<Longrightarrow> events ! i = QuestEventTypeV k \<Longrightarrow> \<not> Suc i < length events \<Longrightarrow>
   Register_loop i events hs = (Panics (IndexOutOfRange (i + 1) (length events)), hs)"
  by (subst Register_loop.simps) simp

lemma Register_loop_not_handler:
  "Suc i < length events \<Longrightarrow> events ! i = QuestEventTypeV k \<Longrightarrow>
   \<not> is_handler (events ! Suc i) \<Longrightarrow>
   Register_loop i events hs = (Panics (ArgNotQuestHandler (i + 1)), hs)"
  by (subst Register_loop.simps) (cases "events ! Suc i"; simp)

lemma installed_pair_QuestHandlerV:
  "installed (QuestEventTypeV k # QuestHandlerV h # rest) = [k \<mapsto> h] ++ installed rest"
  by (simp add: installed_def)

lemma installed_pair_FuncV:
  "installed (QuestEventTypeV k # FuncV h # rest) = [k \<mapsto> h] ++ installed rest"
  by (simp add: installed_def)

lemma upd_add: "hs(k \<mapsto> h) ++ m = hs ++ ([k \<mapsto> h] ++ m)"
  by (metis map_add_assoc map_add_upd map_add_empty)

lemma leading_pairs_not_kind: "\<not> is_kind x \<Longrightarrow> leading_pairs (x # rest) = []"
  by (cases x) simp_all

lemma leading_pairs_not_handler: "\<not> is_handler y \<Longrightarrow> leading_pairs (x # y # rest) = []"
  by (cases x; cases y) simp_all

lemma well_formed_not_kind: "\<not> is_kind x \<Longrightarrow> \<not> well_formed (x # rest)"
  by (cases rest) simp_all

lemma Register_loop_char:
  "snd (Register_loop i events hs) = hs ++ installed (drop i events) \<and>
   (fst (Register_loop i events hs) = Returns () \<longleftrightarrow> well_formed (drop i events))"
proof (induction i events hs rule: Register_loop.induct)
  case (1 i events hs)
  show ?case
  proof (cases "i < length events")
    case False
    then show ?thesis by (simp add: Register_loop_end installed_def)
  next
    case True
    note i_in = this
    then have d1: "drop i events = events ! i # drop (Suc i) events"
      by (simp add: Cons_nth_drop_Suc)
    show ?thesis
    proof (cases "is_kind (events ! i)")
      case False
      with i_in d1 show ?thesis
        by (simp add: Register_loop_not_kind installed_def leading_pairs_not_kind
            well_formed_not_kind)
    next
      case True
      then obtain event where kind: "events ! i = QuestEventTypeV event"
        by (cases "events ! i") simp_all
      show ?thesis
      proof (cases "Suc i < length events")
        case False
        then have "drop (Suc i) events = []" by simp
        with i_in kind d1 False show ?thesis
          by (simp add: Register_loop_odd installed_def)
      next
        case True
        note i1_in = this
        then have d2: "drop (Suc i) events = events ! Suc i # drop (i + 2) events"
          by (simp add: Cons_nth_drop_Suc)
        show ?thesis
        proof (cases "is_handler (events ! Suc i)")
          case False
          with kind i1_in d1 d2 show ?thesis
            by (simp add: Register_loop_not_handler installed_def leading_pairs_not_handler)
        next
          case True
          have step: "\<exists>handler.
              Register_loop i events hs = Register_loop (i + 2) events (hs(event \<mapsto> handler)) \<and>
              installed (drop i events) = [event \<mapsto> handler] ++ installed (drop (i + 2) events) \<and>
              snd (Register_loop (i + 2) events (hs(event \<mapsto> handler)))
                = hs(event \<mapsto> handler) ++ installed (drop (i + 2) events) \<and>
              (fst (Register_loop (i + 2) events (hs(event \<mapsto> handler))) = Returns ()
                \<longleftrightarrow> well_formed (drop (i + 2) events))"
          proof (cases "events ! Suc i")
            case (QuestHandlerV handler)
            have "snd (Register_loop (i + 2) events (hs(event \<mapsto> handler)))
                    = hs(event \<mapsto> handler) ++ installed (drop (i + 2) events) \<and>
                  (fst (Register_loop (i + 2) events (hs(event \<mapsto> handler))) = Returns ()
                    \<longleftrightarrow> well_formed (drop (i + 2) events))"
              by (rule "1.IH"(1)[OF i_in kind]) (use i1_in QuestHandlerV in simp_all)
            moreover have "Register_loop i events hs
                  = Register_loop (i + 2) events (hs(event \<mapsto> handler))"
              using i1_in kind QuestHandlerV by (rule Register_loop_QuestHandlerV)
            moreover have "installed (drop i events)
                  = [event \<mapsto> handler] ++ installed (drop (i + 2) events)"
              using kind QuestHandlerV d1 d2 by (simp add: installed_pair_QuestHandlerV)
            ultimately show ?thesis by blast
          next
            case (FuncV handler)
            have "snd (Register_loop (i + 2) events (hs(event \<mapsto> handler)))
                    = hs(event \<mapsto> handler) ++ installed (drop (i + 2) events) \<and>
                  (fst (Register_loop (i + 2) events (hs(event \<mapsto> handler))) = Returns ()
                    \<longleftrightarrow> well_formed (drop (i + 2) events))"
              by (rule "1.IH"(2)[OF i_in kind]) (use i1_in FuncV in simp_all)
            moreover have "Register_loop i events hs
                  = Register_loop (i + 2) events (hs(event \<mapsto> handler))"
              using i1_in kind FuncV by (rule Register_loop_FuncV)
            moreover have "installed (drop i events)
                  = [event \<mapsto> handler] ++ installed (drop (i + 2) events)"
              using kind FuncV d1 d2 by (simp add: installed_pair_FuncV)
            ultimately show ?thesis by blast
          next
            case (QuestEventTypeV x)
            with True show ?thesis by simp
          next
            case OtherV
            with True show ?thesis by simp
          qed
          then obtain handler where
            unfold: "Register_loop i events hs
                = Register_loop (i + 2) events (hs(event \<mapsto> handler))" and
            pairs: "installed (drop i events)
                = [event \<mapsto> handler] ++ installed (drop (i + 2) events)" and
            ih1: "snd (Register_loop (i + 2) events (hs(event \<mapsto> handler)))
                = hs(event \<mapsto> handler) ++ installed (drop (i + 2) events)" and
            ih2: "fst (Register_loop (i + 2) events (hs(event \<mapsto> handler))) = Returns ()
                \<longleftrightarrow> well_formed (drop (i + 2) events)"
            by blast
          have "snd (Register_loop i events hs)
                = hs(event \<mapsto> handler) ++ installed (drop (i + 2) events)"
            using ih1 unfold by simp
          also have "\<dots> = hs ++ ([event \<mapsto> handler] ++ installed (drop (i + 2) events))"
            by (rule upd_add)
          also have "\<dots> = hs ++ installed (drop i events)"
            using pairs by simp
          finally have first: "snd (Register_loop i events hs) = hs ++ installed (drop i events)" .
          have "well_formed (drop i events) \<longleftrightarrow> well_formed (drop (i + 2) events)"
            using d1 d2 kind True by simp
          with ih2 unfold have "fst (Register_loop i events hs) = Returns ()
              \<longleftrightarrow> well_formed (drop i events)"
            by simp
          with first show ?thesis by simp
        qed
      qed
    qed
  qed
qed

lemma outcome_unit_cases: "(r :: unit outcome) = Returns () \<or> (\<exists>p. r = Panics p)"
  by (cases r) simp_all

subsection \<open>Register, as a whole\<close>

lemma Register_outcome: "fst (Register name events z) = fst (Register_loop 0 events
    (case (case Handlers z of None \<Rightarrow> Map.empty | Some m \<Rightarrow> m) name of None \<Rightarrow> Map.empty | Some m \<Rightarrow> m))"
  by (simp add: Register_def Let_def split: prod.splits)

lemma Register_returns_iff: "fst (Register name events z) = Returns () \<longleftrightarrow> well_formed events"
  using Register_loop_char[of 0 events] by (simp add: Register_outcome)

lemma Register_actions: "snd (snd (Register name events z)) = [MuLock, MuUnlock]"
  by (simp add: Register_def Let_def split: prod.splits)

lemma Register_Handlers:
  "Handlers (fst (snd (Register name events z))) =
     Some ((case Handlers z of None \<Rightarrow> Map.empty | Some m \<Rightarrow> m)
       (name \<mapsto> (case (case Handlers z of None \<Rightarrow> Map.empty | Some m \<Rightarrow> m) name of
                    None \<Rightarrow> Map.empty | Some m \<Rightarrow> m) ++ installed events))"
proof -
  let ?inner = "case (case Handlers z of None \<Rightarrow> Map.empty | Some m \<Rightarrow> m) name of
                    None \<Rightarrow> Map.empty | Some m \<Rightarrow> m"
  have "snd (Register_loop 0 events ?inner) = ?inner ++ installed events"
    using Register_loop_char[of 0 events ?inner] by simp
  then show ?thesis
    by (auto simp: Register_def Let_def split: prod.splits)
qed

lemma Register_ZoneAccess: "ZoneAccess (fst (snd (Register name events z))) = ZoneAccess z"
  by (simp add: Register_def Let_def split: prod.splits)

lemma handler_for_Register:
  "handler_for (fst (snd (Register name events z))) s k =
     (if s = name then (case installed events k of Some h \<Rightarrow> Some h | None \<Rightarrow> handler_for z name k)
      else handler_for z s k)"
  by (simp add: handler_for_def Register_Handlers map_add_def split: option.splits)

lemma script_ids_Register:
  "script_ids (fst (snd (Register name events z))) = insert name (script_ids z)"
  by (simp add: script_ids_def Register_Handlers split: option.splits)

subsection \<open>Unregister, case by case\<close>

lemma fold_delete:
  "fold (\<lambda>event m. m(event := None)) events inner k = (if k \<in> set events then None else inner k)"
  by (induction events arbitrary: inner) auto

lemma Unregister_actions: "snd (Unregister name events z) = [MuLock, MuUnlock]"
  by (simp add: Unregister_def Let_def split: option.splits)

lemma Unregister_ZoneAccess: "ZoneAccess (fst (Unregister name events z)) = ZoneAccess z"
  by (simp add: Unregister_def Let_def split: option.splits)

lemma Unregister_nil: "Handlers z = None \<Longrightarrow> fst (Unregister name events z) = z"
  by (simp add: Unregister_def)

lemma Unregister_absent:
  "Handlers z = Some hs \<Longrightarrow> hs name = None \<Longrightarrow> fst (Unregister name events z) = z"
  by (simp add: Unregister_def)

lemma Unregister_all:
  "Handlers z = Some hs \<Longrightarrow> hs name = Some inner \<Longrightarrow>
   Handlers (fst (Unregister name [] z)) = Some (hs(name := None))"
  by (simp add: Unregister_def)

lemma Unregister_last:
  "Handlers z = Some hs \<Longrightarrow> hs name = Some inner \<Longrightarrow> events \<noteq> [] \<Longrightarrow>
   fold (\<lambda>event m. m(event := None)) events inner = Map.empty \<Longrightarrow>
   Handlers (fst (Unregister name events z)) = Some (hs(name := None))"
  by (simp add: Unregister_def)

lemma Unregister_some:
  "Handlers z = Some hs \<Longrightarrow> hs name = Some inner \<Longrightarrow> events \<noteq> [] \<Longrightarrow>
   fold (\<lambda>event m. m(event := None)) events inner \<noteq> Map.empty \<Longrightarrow>
   Handlers (fst (Unregister name events z)) =
     Some (hs(name \<mapsto> fold (\<lambda>event m. m(event := None)) events inner))"
  by (simp add: Unregister_def)

lemma handler_for_Unregister:
  "handler_for (fst (Unregister name events z)) s k =
     (if s = name \<and> (events = [] \<or> k \<in> set events) then None else handler_for z s k)"
proof (cases "Handlers z")
  case None
  then show ?thesis by (simp add: Unregister_nil handler_for_def)
next
  case (Some hs)
  note hs = this
  show ?thesis
  proof (cases "hs name")
    case None
    with hs show ?thesis by (auto simp: Unregister_absent handler_for_def)
  next
    case (Some inner)
    note inner = this
    show ?thesis
    proof (cases "events = []")
      case True
      with hs inner show ?thesis by (simp add: Unregister_all handler_for_def)
    next
      case False
      note some = this
      let ?inner' = "fold (\<lambda>event m. m(event := None)) events inner"
      show ?thesis
      proof (cases "?inner' = Map.empty")
        case True
        then have "?inner' k = None" by simp
        then have "k \<notin> set events \<Longrightarrow> inner k = None" by (simp add: fold_delete)
        with hs inner some True show ?thesis
          by (auto simp: Unregister_last handler_for_def)
      next
        case False
        with hs inner some show ?thesis
          by (simp add: Unregister_some handler_for_def fold_delete)
      qed
    qed
  qed
qed

lemma script_ids_Unregister:
  "script_ids (fst (Unregister name events z)) \<subseteq> script_ids z"
  by (auto simp: script_ids_def Unregister_def Let_def split: option.splits if_splits)

subsection \<open>Invoke, case by case\<close>

lemma Invoke_registered:
  "handler_for z name (EventType (Events m a)) = Some h \<Longrightarrow>
   Invoke name (Some a) z m = (fst (h (Some a) m), z, snd (h (Some a) m), [Call h (Some a)])"
  by (auto simp: handler_for_def Invoke_def split: option.splits prod.splits)

lemma Invoke_unregistered:
  "handler_for z name (EventType (Events m a)) = None \<Longrightarrow>
   Invoke name (Some a) z m = (Returns False, z, m, [])"
  by (auto simp: handler_for_def Invoke_def split: option.splits prod.splits)

lemma Invoke_unknown:
  "name \<notin> script_ids z \<Longrightarrow> Invoke name evt z m = (Returns False, z, m, [])"
  by (auto simp: script_ids_def Invoke_def split: option.splits prod.splits)

lemma Invoke_registry: "fst (snd (Invoke name evt z m)) = z"
  by (auto simp: Invoke_def split: option.splits prod.splits)

subsection \<open>Empty inner maps\<close>

lemma ran_delete: "v \<notin> ran hs \<Longrightarrow> v \<notin> ran (hs(name := None))"
  by (auto simp: ran_def split: if_splits)

lemma ran_update: "v \<notin> ran hs \<Longrightarrow> v \<noteq> w \<Longrightarrow> v \<notin> ran (hs(name \<mapsto> w))"
  by (auto simp: ran_def split: if_splits)

lemma no_empty_residue_Unregister:
  "no_empty_residue z \<Longrightarrow> no_empty_residue (fst (Unregister name events z))"
  by (auto simp: no_empty_residue_def Unregister_def Let_def ran_delete ran_update split: option.splits)

lemma installed_nonempty: "leading_pairs events \<noteq> [] \<Longrightarrow> installed events \<noteq> Map.empty"
  by (cases "leading_pairs events" rule: rev_cases) (auto simp: installed_def)

lemma no_empty_residue_Register:
  assumes "no_empty_residue z" and "leading_pairs events \<noteq> [] \<or> name \<in> script_ids z"
  shows "no_empty_residue (fst (snd (Register name events z)))"
proof -
  let ?hs = "case Handlers z of None \<Rightarrow> Map.empty | Some m \<Rightarrow> m"
  let ?inner = "case ?hs name of None \<Rightarrow> Map.empty | Some m \<Rightarrow> m"
  have hs: "Map.empty \<notin> ran ?hs"
    using assms(1) by (simp add: no_empty_residue_def split: option.splits)
  have "?inner ++ installed events \<noteq> Map.empty"
  proof (cases "leading_pairs events \<noteq> []")
    case True
    then show ?thesis using installed_nonempty[of events] by simp
  next
    case False
    with assms(2) obtain m where m: "?hs name = Some m"
      by (auto simp: script_ids_def split: option.splits)
    then have "m \<in> ran ?hs" by (rule ranI)
    with hs have "m \<noteq> Map.empty" by auto
    with m show ?thesis by simp
  qed
  then have "Map.empty \<notin> ran (?hs(name \<mapsto> ?inner ++ installed events))"
    using hs by (intro ran_update) auto
  then show ?thesis
    by (simp add: no_empty_residue_def Register_Handlers)
qed

text \<open>\<^verbatim>\<open>Register\<close> keeps the property exactly when it installs a pair or the script id had an entry.\<close>

lemma no_empty_residue_Register_iff:
  assumes "no_empty_residue z"
  shows "no_empty_residue (fst (snd (Register name events z))) \<longleftrightarrow>
         leading_pairs events \<noteq> [] \<or> name \<in> script_ids z"
proof
  assume "leading_pairs events \<noteq> [] \<or> name \<in> script_ids z"
  with assms show "no_empty_residue (fst (snd (Register name events z)))"
    by (rule no_empty_residue_Register)
next
  assume after: "no_empty_residue (fst (snd (Register name events z)))"
  show "leading_pairs events \<noteq> [] \<or> name \<in> script_ids z"
  proof (rule ccontr)
    assume "\<not> (leading_pairs events \<noteq> [] \<or> name \<in> script_ids z)"
    then have none: "installed events = Map.empty" and fresh: "name \<notin> script_ids z"
      by (simp_all add: installed_def)
    let ?hs = "case Handlers z of None \<Rightarrow> Map.empty | Some m \<Rightarrow> m"
    have "?hs name = None"
      using fresh by (auto simp: script_ids_def split: option.splits)
    then have "Handlers (fst (snd (Register name events z))) = Some (?hs(name \<mapsto> Map.empty))"
      using none by (simp add: Register_Handlers)
    then have "\<not> no_empty_residue (fst (snd (Register name events z)))"
      by (auto simp: no_empty_residue_def ran_def)
    with after show False by simp
  qed
qed

subsection \<open>The example registries\<close>

lemma kinds_distinct:
  "EventDeath \<noteq> EventSpawn" "EventSpawn \<noteq> EventDeath" "EventSay \<noteq> EventDeath"
  "EventDeath \<noteq> EventSay" "EventSay \<noteq> EventSpawn" "EventSpawn \<noteq> EventSay"
  by (simp_all add: EventDeath_def EventSpawn_def EventSay_def)

lemma example_memory_kinds:
  "EventType (Events example_memory 0) = EventDeath"
  "EventType (Events example_memory (Suc 0)) = EventSpawn"
  by (simp_all add: example_memory_def)

lemma handler_for_zero: "handler_for ZoneQuestInterface_zero s k = None"
  by (simp add: handler_for_def ZoneQuestInterface_zero_def)

lemma script_ids_zero: "script_ids ZoneQuestInterface_zero = {}"
  by (simp add: script_ids_def ZoneQuestInterface_zero_def)

lemma handler_for_rat1:
  "handler_for rat1_registry s k = (if s = ''rat1'' \<and> k = EventDeath then Some sets_flag else None)"
  by (simp add: rat1_registry_def handler_for_Register handler_for_zero installed_def)

lemma handler_for_faulty:
  "handler_for faulty_registry s k = (if s = ''rat1'' \<and> k = EventDeath then Some faulty else None)"
  by (simp add: faulty_registry_def handler_for_Register handler_for_zero installed_def)

lemma script_ids_rat1: "script_ids rat1_registry = {''rat1''}"
  by (simp add: rat1_registry_def script_ids_Register script_ids_zero)

subsection \<open>Well-formed argument sequences\<close>

text \<open>
  The recursive \<open>well_formed\<close> is the specification's condition: an even length, a
  kind at every even position and a handler at every odd one.
\<close>

lemma well_formed_by_position:
  "well_formed events \<longleftrightarrow>
     even (length events) \<and>
     (\<forall>i < length events. if even i then is_kind (events ! i) else is_handler (events ! i))"
proof (induction events rule: well_formed.induct)
  case 1
  then show ?case by simp
next
  case (2 x)
  then show ?case by simp
next
  case (3 k h rest)
  have "(\<forall>i < length (k # h # rest).
           if even i then is_kind ((k # h # rest) ! i) else is_handler ((k # h # rest) ! i))
        \<longleftrightarrow> is_kind k \<and> is_handler h \<and>
            (\<forall>i < length rest. if even i then is_kind (rest ! i) else is_handler (rest ! i))"
    (is "?L \<longleftrightarrow> ?R")
  proof
    assume l: ?L
    have "is_kind k" using l[rule_format, of 0] by simp
    moreover have "is_handler h" using l[rule_format, of 1] by simp
    moreover have "if even i then is_kind (rest ! i) else is_handler (rest ! i)"
      if "i < length rest" for i
      using l[rule_format, of "Suc (Suc i)"] that by (auto split: if_splits)
    ultimately show ?R by simp
  next
    assume r: ?R
    show ?L
    proof (intro allI impI)
      fix i assume "i < length (k # h # rest)"
      then consider "i = 0" | "i = 1" | j where "i = Suc (Suc j)" "j < length rest"
        by (cases i; cases "i - 1") auto
      then show "if even i then is_kind ((k # h # rest) ! i) else is_handler ((k # h # rest) ! i)"
        using r by cases auto
    qed
  qed
  with 3 show ?case by auto
qed

subsection \<open>Handlers along a sequence of calls\<close>

lemma leading_pairs_kinds:
  "(k, h) \<in> set (leading_pairs events) \<Longrightarrow> QuestEventTypeV k \<in> set events"
  by (induction events rule: leading_pairs.induct) auto

lemma installed_kinds: "installed events k = Some h \<Longrightarrow> QuestEventTypeV k \<in> set events"
  unfolding installed_def using leading_pairs_kinds[of k h events]
  by (auto dest: map_of_SomeD)

lemma handler_for_step:
  assumes "\<not> touches s k op"
  shows "handler_for (fst (step op (z, m))) s k = handler_for z s k"
proof (cases op)
  case (OpRegister name events)
  have "installed events k = None" if "name = s"
  proof (rule ccontr)
    assume "installed events k \<noteq> None"
    then obtain h where "installed events k = Some h" by auto
    then have "QuestEventTypeV k \<in> set events" by (rule installed_kinds)
    with assms OpRegister that show False by simp
  qed
  with OpRegister show ?thesis by (simp add: handler_for_Register)
next
  case (OpUnregister name events)
  with assms show ?thesis by (auto simp: handler_for_Unregister)
next
  case (OpInvoke name evt)
  have "fst (step (OpInvoke name evt) (z, m)) = fst (snd (Invoke name evt z m))"
    by (simp split: prod.splits)
  with OpInvoke show ?thesis by (simp add: Invoke_registry)
qed

lemma handler_for_run:
  "\<forall>op \<in> set ops. \<not> touches s k op \<Longrightarrow>
   handler_for (fst (run ops (z, m))) s k = handler_for z s k"
proof (induction ops arbitrary: z m)
  case Nil
  then show ?case by (simp add: run_def)
next
  case (Cons op ops)
  obtain z1 m1 where st: "step op (z, m) = (z1, m1)" by (cases "step op (z, m)")
  have "handler_for (fst (run ops (z1, m1))) s k = handler_for z1 s k"
    using Cons by simp
  moreover have "handler_for z1 s k = handler_for z s k"
    using handler_for_step[of s k op z m] Cons.prems st by simp
  moreover have "run (op # ops) (z, m) = run ops (z1, m1)"
    using st by (simp add: run_def)
  ultimately show ?case by simp
qed

lemma installed_one:
  "v = QuestHandlerV h \<or> v = FuncV h \<Longrightarrow> installed [QuestEventTypeV k, v] = [k \<mapsto> h]"
  by (auto simp: installed_def)

lemma well_formed_one:
  "v = QuestHandlerV h \<or> v = FuncV h \<Longrightarrow> well_formed [QuestEventTypeV k, v]"
  by auto

lemma handler_for_registered_twice:
  "v2 = QuestHandlerV h2 \<or> v2 = FuncV h2 \<Longrightarrow>
   handler_for (registered_twice s k v1 v2 z) s k = Some h2"
  by (simp add: registered_twice_def handler_for_Register installed_one)

lemma script_ids_Unregister_all: "s \<notin> script_ids (fst (Unregister s [] z))"
  by (auto simp: script_ids_def Unregister_def split: option.splits)

subsection \<open>Empty inner maps along a sequence of calls\<close>

lemma no_empty_residue_zero: "no_empty_residue ZoneQuestInterface_zero"
  by (simp add: no_empty_residue_def ZoneQuestInterface_zero_def)

lemma no_empty_residue_step:
  assumes "no_empty_residue z"
  shows "no_empty_residue (fst (step c (z, m))) \<longleftrightarrow> fills_or_finds c z"
proof (cases c)
  case (OpRegister name events)
  with assms show ?thesis by (simp add: no_empty_residue_Register_iff)
next
  case (OpUnregister name events)
  with assms show ?thesis by (simp add: no_empty_residue_Unregister)
next
  case (OpInvoke name evt)
  have "fst (step (OpInvoke name evt) (z, m)) = fst (snd (Invoke name evt z m))"
    by (simp split: prod.splits)
  with OpInvoke assms show ?thesis by (simp add: Invoke_registry)
qed

lemma no_empty_residue_along_iff:
  "no_empty_residue_along ops (z, m) \<longleftrightarrow> no_empty_residue z \<and> fills_or_finds_along ops (z, m)"
proof (induction ops arbitrary: z m)
  case Nil
  then show ?case by simp
next
  case (Cons c ops)
  obtain z1 m1 where st: "step c (z, m) = (z1, m1)" by (cases "step c (z, m)")
  have ih: "no_empty_residue_along ops (z1, m1) \<longleftrightarrow>
      no_empty_residue z1 \<and> fills_or_finds_along ops (z1, m1)"
    by (rule Cons.IH)
  have "no_empty_residue z1 \<longleftrightarrow> fills_or_finds c z" if "no_empty_residue z"
    using no_empty_residue_step[OF that, of c m] st by simp
  with ih st show ?case by auto
qed

lemma no_empty_residue_along_last:
  "no_empty_residue_along ops s \<Longrightarrow> no_empty_residue (fst (run ops s))"
proof (induction ops arbitrary: s)
  case Nil
  then show ?case by (simp add: run_def)
next
  case (Cons c ops)
  then have "no_empty_residue (fst (run ops (step c s)))" by simp
  then show ?case by (simp add: run_def)
qed

subsection \<open>Worked calls\<close>

lemma Register_death_then_lone_spawn:
  "Register ''x'' [QuestEventTypeV EventDeath, QuestHandlerV sets_flag, QuestEventTypeV EventSpawn]
     ZoneQuestInterface_zero =
   (Panics (IndexOutOfRange 3 3),
    \<lparr>ZoneAccess = None, Handlers = Some [''x'' \<mapsto> [EventDeath \<mapsto> sets_flag]]\<rparr>,
    [MuLock, MuUnlock])"
  by (simp add: Register_def ZoneQuestInterface_zero_def Register_loop.simps)

lemma goblin_run:
  "run [OpInvoke ''goblin'' (Some 2), OpRegister ''goblin'' [QuestEventTypeV EventDeath, FuncV faulty],
        OpUnregister ''rat1'' []]
     (registered_twice ''goblin'' EventSay (QuestHandlerV declines) (FuncV sets_flag)
        ZoneQuestInterface_zero, example_memory) =
   (\<lparr>ZoneAccess = None,
     Handlers = Some [''goblin'' \<mapsto> [EventSay \<mapsto> sets_flag, EventDeath \<mapsto> faulty]]\<rparr>,
    example_memory\<lparr>Zone := True\<rparr>)"
  by (simp add: run_def registered_twice_def Register_def Register_loop.simps Unregister_def
      Invoke_def ZoneQuestInterface_zero_def example_memory_def sets_flag_def EventSay_def
      QuestEvent_zero_def)

lemma handler_for_two_kinds:
  "handler_for two_kinds_registry ''rat1'' EventDeath = Some sets_flag"
  "handler_for two_kinds_registry ''rat1'' EventSpawn = Some declines"
  "handler_for two_kinds_registry ''goblin'' EventSay = Some faulty"
  by (simp_all add: handler_for_def two_kinds_registry_def kinds_distinct)

text \<open>
  Scenario B of the specification: \<^verbatim>\<open>Register("goblin", EventSay, h1, EventSay, h2)\<close>,
  after which only the second handler fires for a say event.
\<close>

lemma Scenario_B:
  "Invoke ''goblin'' (Some 2)
     (fst (snd (Register ''goblin''
        [QuestEventTypeV EventSay, QuestHandlerV declines, QuestEventTypeV EventSay, QuestHandlerV sets_flag]
        ZoneQuestInterface_zero)))
     example_memory =
   (Returns True,
    fst (snd (Register ''goblin''
        [QuestEventTypeV EventSay, QuestHandlerV declines, QuestEventTypeV EventSay, QuestHandlerV sets_flag]
        ZoneQuestInterface_zero)),
    example_memory\<lparr>Zone := True\<rparr>, [Call sets_flag (Some 2)])"
proof -
  have "EventType (Events example_memory 2) = EventSay"
    by (simp add: example_memory_def QuestEvent_zero_def EventSay_def)
  then have "handler_for (fst (snd (Register ''goblin''
        [QuestEventTypeV EventSay, QuestHandlerV declines, QuestEventTypeV EventSay, QuestHandlerV sets_flag]
        ZoneQuestInterface_zero))) ''goblin'' (EventType (Events example_memory 2)) = Some sets_flag"
    by (simp add: handler_for_Register installed_def)
  then show ?thesis
    by (simp add: Invoke_registered sets_flag_def)
qed

text \<open>
  Scenario C of the specification: \<^verbatim>\<open>Register("x", EventDeath)\<close> panics on the read
  of the missing handler, and has made the entry of \<open>x\<close> by then.
\<close>

lemma Scenario_C:
  "Register ''x'' [QuestEventTypeV EventDeath] ZoneQuestInterface_zero =
   (Panics (IndexOutOfRange 1 1),
    \<lparr>ZoneAccess = None, Handlers = Some [''x'' \<mapsto> Map.empty]\<rparr>,
    [MuLock, MuUnlock])"
  by (simp add: Register_def ZoneQuestInterface_zero_def Register_loop.simps)

subsection \<open>Slices and append\<close>

lemma length_elements: "length (elements A sl) = slice_len sl"
  by (simp add: elements_def slice_len_def split: option.splits)

lemma elements_reslice0: "elements A (reslice0 sl) = []"
  by (simp add: elements_def reslice0_def split: option.splits)

lemma slice_cap_reslice0: "slice_cap (reslice0 sl) = slice_cap sl"
  by (simp add: slice_cap_def reslice0_def split: option.splits)

lemma write_cells_before: "j < i \<Longrightarrow> write_cells row i vals j = row j"
  by (simp add: write_cells_def)

lemma write_cells_at: "j < length vals \<Longrightarrow> write_cells row i vals (i + j) = vals ! j"
  by (simp add: write_cells_def)

text \<open>The slice that \<^verbatim>\<open>append\<close> returns shows the old elements and then the values.\<close>

lemma elements_go_append:
  "elements (snd (go_append grow sl vals A)) (fst (go_append grow sl vals A))
     = elements A sl @ vals"
proof (cases "slice_len sl + length vals \<le> slice_cap sl")
  case True
  show ?thesis
  proof (cases sl)
    case None
    with True show ?thesis
      by (simp add: go_append_def elements_def slice_len_def slice_cap_def)
  next
    case (Some s)
    have "map (\<lambda>i. write_cells (Cells A (arr s)) (off s + len s) vals (off s + i))
            [0..<len s + length vals]
          = map (\<lambda>i. Cells A (arr s) (off s + i)) [0..<len s] @ vals"
      by (rule nth_equalityI)
        (auto simp: nth_append write_cells_def)
    with True Some show ?thesis
      by (simp add: go_append_def elements_def slice_len_def slice_cap_def)
  qed
next
  case False
  have "map (\<lambda>i. write_cells (\<lambda>j. []) 0 (elements A sl @ vals) i)
          [0..<slice_len sl + length vals] = elements A sl @ vals"
    by (rule nth_equalityI) (auto simp: write_cells_def length_elements)
  with False show ?thesis
    by (simp add: go_append_def elements_def)
qed

text \<open>
  \<^verbatim>\<open>Strings\<close> writes in place when the values fit the capacity of the record's
  slice, and allocates otherwise; an allocation leaves every existing array as it
  was.
\<close>

lemma Strings_in_place:
  assumes "length vals \<le> slice_cap (StringArray (h a))"
  shows "StringArray (fst (snd (Strings grow (Some a) vals h A)) a) =
           (case StringArray (h a) of None \<Rightarrow> None | Some s \<Rightarrow> Some (s\<lparr>len := length vals\<rparr>))"
    and "Next (snd (snd (Strings grow (Some a) vals h A))) = Next A"
  using assms
  by (auto simp: Strings_def Let_def go_append_def reslice0_def slice_len_def slice_cap_def
      split: prod.splits option.splits)

lemma Strings_allocates:
  assumes "slice_cap (StringArray (h a)) < length vals"
  shows "\<exists>c. StringArray (fst (snd (Strings grow (Some a) vals h A)) a) =
           Some \<lparr>arr = Next A, off = 0, len = length vals, cap = c\<rparr> \<and> length vals \<le> c"
    and "Next (snd (snd (Strings grow (Some a) vals h A))) = Suc (Next A)"
    and "p \<noteq> Next A \<Longrightarrow> Cells (snd (snd (Strings grow (Some a) vals h A))) p = Cells A p"
  using assms
  by (auto simp: Strings_def Let_def go_append_def reslice0_def slice_len_def slice_cap_def
      split: prod.splits option.splits)

text \<open>
  With two records viewing one array, \<^verbatim>\<open>Strings("z")\<close> on the first is seen by the
  second, which then shows \<open>z\<close> and \<open>b\<close>; \<^verbatim>\<open>Strings\<close> with three values outgrows
  the capacity, takes a new array and leaves the second record's view alone.
\<close>

lemma shared_before:
  "elements shared_arrays (StringArray (shared_heap 0)) = [''a'', ''b'']"
  "elements shared_arrays (StringArray (shared_heap 1)) = [''a'', ''b'']"
  by (simp_all add: shared_arrays_def shared_heap_def elements_def write_cells_def upt_rec)

lemma Strings_shared_array:
  "elements (snd (snd (Strings grow (Some 0) [''z''] shared_heap shared_arrays)))
     (StringArray (fst (snd (Strings grow (Some 0) [''z''] shared_heap shared_arrays)) 0)) = [''z'']"
  "elements (snd (snd (Strings grow (Some 0) [''z''] shared_heap shared_arrays)))
     (StringArray (fst (snd (Strings grow (Some 0) [''z''] shared_heap shared_arrays)) 1))
     = [''z'', ''b'']"
  by (simp_all add: Strings_def Let_def go_append_def reslice0_def slice_len_def slice_cap_def
      shared_arrays_def shared_heap_def elements_def write_cells_def upt_rec)

lemma Strings_outgrows_shared_array:
  "elements (snd (snd (Strings grow (Some 0) [''x'', ''y'', ''z''] shared_heap shared_arrays)))
     (StringArray (fst (snd (Strings grow (Some 0) [''x'', ''y'', ''z''] shared_heap shared_arrays)) 0))
     = [''x'', ''y'', ''z'']"
  "elements (snd (snd (Strings grow (Some 0) [''x'', ''y'', ''z''] shared_heap shared_arrays)))
     (StringArray (fst (snd (Strings grow (Some 0) [''x'', ''y'', ''z''] shared_heap shared_arrays)) 1))
     = [''a'', ''b'']"
  by (simp_all add: Strings_def Let_def go_append_def reslice0_def slice_len_def slice_cap_def
      shared_arrays_def shared_heap_def elements_def write_cells_def upt_rec)

section \<open>The claims\<close>

subsection \<open>Dispatch\<close>

text \<open>
  C1. When a handler \<open>h\<close> is registered for the script id and for the kind of
  the event behind \<open>evt\<close>, and \<open>h\<close> returns the boolean \<open>b\<close>, then \<^verbatim>\<open>Invoke\<close>
  returns \<open>b\<close>; its only action is one call of \<open>h\<close>, made with the pointer it was
  given; the memory is the one \<open>h\<close> left and the registry is the one it was given.
\<close>

theorem Invoke_calls_registered_handler_once:
  assumes "handler_for z name (EventType (Events m a)) = Some h"
    and "h (Some a) m = (Returns b, m')"
  shows "Invoke name (Some a) z m = (Returns b, z, m', [Call h (Some a)])"
  using assms by (simp add: Invoke_registered)

text \<open>
  Scenario A of the specification: the handler of \<open>rat1\<close> for a death sets the
  flag and returns true.
\<close>

theorem Invoke_calls_registered_handler_once_witness:
  "handler_for rat1_registry ''rat1'' (EventType (Events example_memory 0)) = Some sets_flag \<and>
   sets_flag (Some 0) example_memory = (Returns True, example_memory\<lparr>Zone := True\<rparr>) \<and>
   Invoke ''rat1'' (Some 0) rat1_registry example_memory =
     (Returns True, rat1_registry, example_memory\<lparr>Zone := True\<rparr>, [Call sets_flag (Some 0)])"
proof -
  have reg: "handler_for rat1_registry ''rat1'' (EventType (Events example_memory 0)) = Some sets_flag"
    by (simp add: handler_for_rat1 example_memory_kinds)
  have ret: "sets_flag (Some 0) example_memory = (Returns True, example_memory\<lparr>Zone := True\<rparr>)"
    by (simp add: sets_flag_def)
  from Invoke_calls_registered_handler_once [OF reg ret] reg ret show ?thesis by simp
qed

text \<open>
  C2. When the script id has no entry (whatever the event pointer), or the kind
  of the event has no handler under the script id, \<^verbatim>\<open>Invoke\<close> returns false, calls
  nothing and takes no other action, and leaves the registry and the memory, the
  event record included, as they were.
\<close>

theorem Invoke_without_handler_returns_false:
  "(name \<notin> script_ids z \<longrightarrow> Invoke name evt z m = (Returns False, z, m, [])) \<and>
   (handler_for z name (EventType (Events m a)) = None \<longrightarrow>
      Invoke name (Some a) z m = (Returns False, z, m, []))"
  by (simp add: Invoke_unknown Invoke_unregistered)

text \<open>
  An unknown script id, and Scenario A's \<open>rat1\<close> with a spawn event, for which it
  has no handler.
\<close>

theorem Invoke_without_handler_returns_false_witness:
  "''ghost'' \<notin> script_ids rat1_registry \<and>
   Invoke ''ghost'' (Some 0) rat1_registry example_memory =
     (Returns False, rat1_registry, example_memory, []) \<and>
   handler_for rat1_registry ''rat1'' (EventType (Events example_memory 1)) = None \<and>
   Invoke ''rat1'' (Some 1) rat1_registry example_memory =
     (Returns False, rat1_registry, example_memory, [])"
proof -
  have ghost: "''ghost'' \<notin> script_ids rat1_registry"
    by (simp add: script_ids_rat1)
  have spawn: "handler_for rat1_registry ''rat1'' (EventType (Events example_memory 1)) = None"
    by (simp add: handler_for_rat1 example_memory_kinds kinds_distinct)
  from Invoke_without_handler_returns_false
      [where name = "''ghost''" and z = rat1_registry and evt = "Some 0" and m = example_memory]
    Invoke_without_handler_returns_false
      [where name = "''rat1''" and z = rat1_registry and a = 1 and m = example_memory]
    ghost spawn
  show ?thesis by simp
qed

text \<open>
  C3, as the code has it. \<^verbatim>\<open>Invoke\<close> has no \<^verbatim>\<open>recover\<close>: when the registered
  handler panics, \<^verbatim>\<open>Invoke\<close> panics with the same value and returns no boolean.
  The handler was called once, and the memory is the one it left.
\<close>

theorem Invoke_propagates_handler_panic:
  assumes "handler_for z name (EventType (Events m a)) = Some h"
    and "h (Some a) m = (Panics p, m')"
  shows "fst (Invoke name (Some a) z m) = Panics p \<and>
         fst (snd (snd (Invoke name (Some a) z m))) = m' \<and>
         snd (snd (snd (Invoke name (Some a) z m))) = [Call h (Some a)]"
  using assms by (simp add: Invoke_registered)

theorem Invoke_propagates_handler_panic_witness:
  "handler_for faulty_registry ''rat1'' (EventType (Events example_memory 0)) = Some faulty \<and>
   faulty (Some 0) example_memory = (Panics (Fault ''script error''), example_memory) \<and>
   fst (Invoke ''rat1'' (Some 0) faulty_registry example_memory) = Panics (Fault ''script error'') \<and>
   fst (snd (snd (Invoke ''rat1'' (Some 0) faulty_registry example_memory))) = example_memory \<and>
   snd (snd (snd (Invoke ''rat1'' (Some 0) faulty_registry example_memory)))
     = [Call faulty (Some 0)]"
proof -
  have reg: "handler_for faulty_registry ''rat1'' (EventType (Events example_memory 0)) = Some faulty"
    by (simp add: handler_for_faulty example_memory_kinds)
  have ret: "faulty (Some 0) example_memory = (Panics (Fault ''script error''), example_memory)"
    by (simp add: faulty_def)
  from Invoke_propagates_handler_panic [OF reg ret] reg ret show ?thesis by simp
qed

text \<open>
  C3 as the specification states it fails: with the faulting handler registered
  for \<open>rat1\<close> and a death event, the outcome of \<^verbatim>\<open>Invoke\<close> is the handler's panic,
  not the value false.
\<close>

theorem Invoke_contains_handler_panic_counterexample:
  "fst (Invoke ''rat1'' (Some 0) faulty_registry example_memory) = Panics (Fault ''script error'') \<and>
   fst (Invoke ''rat1'' (Some 0) faulty_registry example_memory) \<noteq> Returns False"
proof -
  have "handler_for faulty_registry ''rat1'' (EventType (Events example_memory 0)) = Some faulty"
    by (simp add: handler_for_faulty example_memory_kinds)
  then show ?thesis
    by (simp add: Invoke_registered faulty_def)
qed

subsection \<open>Registration\<close>

text \<open>
  C4, as the code has it. On every argument sequence that is not well formed,
  \<^verbatim>\<open>Register\<close> panics at the call. Nothing is undone: the script id has an entry,
  the pairs in front of the first missing or ill-typed position are installed
  (a later pair for the same kind wins), and every other pair, under this script
  id or another, has the handler it had before the call.
\<close>

theorem Register_malformed_panics_after_partial_registration:
  assumes "\<not> well_formed events"
  shows "(\<exists>p. fst (Register name events z) = Panics p) \<and>
         (\<forall>s k. handler_for (fst (snd (Register name events z))) s k =
            (if s = name
             then (case installed events k of Some h \<Rightarrow> Some h | None \<Rightarrow> handler_for z name k)
             else handler_for z s k)) \<and>
         script_ids (fst (snd (Register name events z))) = insert name (script_ids z) \<and>
         ZoneAccess (fst (snd (Register name events z))) = ZoneAccess z"
proof -
  have "fst (Register name events z) \<noteq> Returns ()"
    using assms by (simp add: Register_returns_iff)
  then have "\<exists>p. fst (Register name events z) = Panics p"
    using outcome_unit_cases[of "fst (Register name events z)"] by simp
  then show ?thesis
    by (simp add: handler_for_Register script_ids_Register Register_ZoneAccess)
qed

text \<open>
  A death handler followed by a lone kind: the call panics on the read of the
  missing fourth argument, after the death handler is installed.
\<close>

theorem Register_malformed_panics_after_partial_registration_witness:
  "\<not> well_formed [QuestEventTypeV EventDeath, QuestHandlerV sets_flag, QuestEventTypeV EventSpawn] \<and>
   fst (Register ''x'' [QuestEventTypeV EventDeath, QuestHandlerV sets_flag, QuestEventTypeV EventSpawn]
     ZoneQuestInterface_zero) = Panics (IndexOutOfRange 3 3) \<and>
   handler_for (fst (snd (Register ''x''
     [QuestEventTypeV EventDeath, QuestHandlerV sets_flag, QuestEventTypeV EventSpawn]
     ZoneQuestInterface_zero))) ''x'' EventDeath = Some sets_flag \<and>
   handler_for (fst (snd (Register ''x''
     [QuestEventTypeV EventDeath, QuestHandlerV sets_flag, QuestEventTypeV EventSpawn]
     ZoneQuestInterface_zero))) ''x'' EventSpawn = None \<and>
   script_ids (fst (snd (Register ''x''
     [QuestEventTypeV EventDeath, QuestHandlerV sets_flag, QuestEventTypeV EventSpawn]
     (ZoneQuestInterface_zero :: bool ZoneQuestInterface)))) = {''x''}"
proof -
  have bad: "\<not> well_formed [QuestEventTypeV EventDeath, QuestHandlerV sets_flag, QuestEventTypeV EventSpawn]"
    by simp
  from Register_malformed_panics_after_partial_registration [OF bad, of "''x''" ZoneQuestInterface_zero] bad
  show ?thesis
    by (simp add: Register_death_then_lone_spawn installed_def handler_for_zero script_ids_zero
        kinds_distinct)
qed

text \<open>
  C4 as the specification states it fails on the same call: the registry after
  the panic is not the registry before it.
\<close>

theorem Register_malformed_leaves_registry_counterexample:
  "\<not> well_formed [QuestEventTypeV EventDeath, QuestHandlerV sets_flag, QuestEventTypeV EventSpawn] \<and>
   fst (Register ''x'' [QuestEventTypeV EventDeath, QuestHandlerV sets_flag, QuestEventTypeV EventSpawn]
     ZoneQuestInterface_zero) = Panics (IndexOutOfRange 3 3) \<and>
   Handlers (fst (snd (Register ''x''
     [QuestEventTypeV EventDeath, QuestHandlerV sets_flag, QuestEventTypeV EventSpawn]
     ZoneQuestInterface_zero))) \<noteq> Handlers ZoneQuestInterface_zero \<and>
   handler_for (fst (snd (Register ''x''
     [QuestEventTypeV EventDeath, QuestHandlerV sets_flag, QuestEventTypeV EventSpawn]
     ZoneQuestInterface_zero))) ''x'' EventDeath = Some sets_flag \<and>
   handler_for ZoneQuestInterface_zero ''x'' EventDeath = (None :: bool QuestHandler option)"
proof -
  have "Handlers (ZoneQuestInterface_zero :: bool ZoneQuestInterface) = None"
    by (simp add: ZoneQuestInterface_zero_def)
  then show ?thesis
    by (simp add: Register_death_then_lone_spawn handler_for_def)
qed

text \<open>
  C5. The actions of \<^verbatim>\<open>Invoke\<close> hold no operation on the mutex, neither a read
  lock nor any other: on Scenario A's registry the only action is the call of the
  handler, and so it is for every call. \<^verbatim>\<open>Register\<close> and \<^verbatim>\<open>Unregister\<close> take the
  write lock and release it.
\<close>

theorem Invoke_takes_no_lock:
  "snd (snd (snd (Invoke ''rat1'' (Some 0) rat1_registry example_memory))) = [Call sets_flag (Some 0)] \<and>
   set (snd (snd (snd (Invoke name evt z m)))) \<inter> {MuLock, MuUnlock, MuRLock, MuRUnlock} = {} \<and>
   snd (snd (Register name events z)) = [MuLock, MuUnlock] \<and>
   snd (Unregister name kinds z) = [MuLock, MuUnlock]"
proof -
  have "handler_for rat1_registry ''rat1'' (EventType (Events example_memory 0)) = Some sets_flag"
    by (simp add: handler_for_rat1 example_memory_kinds)
  then have "snd (snd (snd (Invoke ''rat1'' (Some 0) rat1_registry example_memory)))
      = [Call sets_flag (Some 0)]"
    by (simp add: Invoke_registered)
  moreover have "set (snd (snd (snd (Invoke name evt z m)))) \<inter> {MuLock, MuUnlock, MuRLock, MuRUnlock} = {}"
    by (auto simp: Invoke_def split: option.splits prod.splits)
  ultimately show ?thesis
    by (simp add: Register_actions Unregister_actions)
qed

text \<open>
  C6. After \<^verbatim>\<open>Register(s, k, h1)\<close> and then \<^verbatim>\<open>Register(s, k, h2)\<close> (each handler
  given as a \<^verbatim>\<open>QuestHandler\<close> or as a plain function) both calls return, the handler
  of the pair is \<open>h2\<close>, and it stays \<open>h2\<close> through every sequence of calls none
  of which is a \<^verbatim>\<open>Register\<close> of \<open>s\<close> naming \<open>k\<close> or an \<^verbatim>\<open>Unregister\<close> of \<open>s\<close> that
  names \<open>k\<close> or names no kind; \<^verbatim>\<open>Invoke\<close> with an event of kind \<open>k\<close> then calls
  \<open>h2\<close> and nothing else.
\<close>

theorem Register_again_replaces_handler:
  assumes "v1 = QuestHandlerV h1 \<or> v1 = FuncV h1"
    and "v2 = QuestHandlerV h2 \<or> v2 = FuncV h2"
    and "\<forall>op \<in> set ops. \<not> touches s k op"
    and "EventType (Events (snd (run ops (registered_twice s k v1 v2 z, m))) a) = k"
  shows "fst (Register s [QuestEventTypeV k, v1] z) = Returns () \<and>
         fst (Register s [QuestEventTypeV k, v2] (fst (snd (Register s [QuestEventTypeV k, v1] z))))
           = Returns () \<and>
         handler_for (registered_twice s k v1 v2 z) s k = Some h2 \<and>
         handler_for (fst (run ops (registered_twice s k v1 v2 z, m))) s k = Some h2 \<and>
         snd (snd (snd (Invoke s (Some a) (fst (run ops (registered_twice s k v1 v2 z, m)))
           (snd (run ops (registered_twice s k v1 v2 z, m))))))
           = [Call h2 (Some a)]"
proof -
  let ?z2 = "registered_twice s k v1 v2 z"
  have now: "handler_for ?z2 s k = Some h2"
    using assms(2) by (rule handler_for_registered_twice)
  have later: "handler_for (fst (run ops (?z2, m))) s k = Some h2"
    using handler_for_run[OF assms(3), of ?z2 m] now by simp
  then have "handler_for (fst (run ops (?z2, m))) s
      (EventType (Events (snd (run ops (?z2, m))) a)) = Some h2"
    using assms(4) by simp
  then have "snd (snd (snd (Invoke s (Some a) (fst (run ops (?z2, m))) (snd (run ops (?z2, m))))))
      = [Call h2 (Some a)]"
    by (simp add: Invoke_registered)
  with now later show ?thesis
    using assms(1,2) by (auto simp: Register_returns_iff)
qed

theorem Register_again_replaces_handler_witness:
  "run [OpInvoke ''goblin'' (Some 2), OpRegister ''goblin'' [QuestEventTypeV EventDeath, FuncV faulty],
        OpUnregister ''rat1'' []]
     (registered_twice ''goblin'' EventSay (QuestHandlerV declines) (FuncV sets_flag)
        ZoneQuestInterface_zero, example_memory) =
   (\<lparr>ZoneAccess = None,
     Handlers = Some [''goblin'' \<mapsto> [EventSay \<mapsto> sets_flag, EventDeath \<mapsto> faulty]]\<rparr>,
    example_memory\<lparr>Zone := True\<rparr>) \<and>
   EventType (Events (example_memory\<lparr>Zone := True\<rparr>) 2) = EventSay \<and>
   handler_for (registered_twice ''goblin'' EventSay (QuestHandlerV declines) (FuncV sets_flag)
      ZoneQuestInterface_zero) ''goblin'' EventSay = Some sets_flag \<and>
   handler_for \<lparr>ZoneAccess = None,
      Handlers = Some [''goblin'' \<mapsto> [EventSay \<mapsto> sets_flag, EventDeath \<mapsto> faulty]]\<rparr>
      ''goblin'' EventSay = Some sets_flag \<and>
   snd (snd (snd (Invoke ''goblin'' (Some 2)
      \<lparr>ZoneAccess = None,
       Handlers = Some [''goblin'' \<mapsto> [EventSay \<mapsto> sets_flag, EventDeath \<mapsto> faulty]]\<rparr>
      (example_memory\<lparr>Zone := True\<rparr>)))) = [Call sets_flag (Some 2)]"
proof -
  let ?ops = "[OpInvoke ''goblin'' (Some 2),
               OpRegister ''goblin'' [QuestEventTypeV EventDeath, FuncV faulty],
               OpUnregister ''rat1'' []] :: bool op list"
  have v1: "QuestHandlerV declines = QuestHandlerV declines \<or> QuestHandlerV declines = FuncV declines"
    by simp
  have v2: "FuncV sets_flag = QuestHandlerV sets_flag \<or> FuncV sets_flag = FuncV sets_flag"
    by simp
  have apart: "\<forall>op \<in> set ?ops. \<not> touches ''goblin'' EventSay op"
    by (simp add: kinds_distinct)
  have kind: "EventType (Events (snd (run ?ops
      (registered_twice ''goblin'' EventSay (QuestHandlerV declines) (FuncV sets_flag)
        ZoneQuestInterface_zero, example_memory))) 2) = EventSay"
    unfolding goblin_run by (simp add: example_memory_def EventSay_def QuestEvent_zero_def)
  from Register_again_replaces_handler [OF v1 v2 apart kind] kind show ?thesis
    unfolding goblin_run by simp
qed

text \<open>
  C7. \<^verbatim>\<open>Unregister(s)\<close> with no kinds leaves no handler under \<open>s\<close>, and \<^verbatim>\<open>Invoke\<close>
  on \<open>s\<close> then returns false for every event pointer. \<^verbatim>\<open>Unregister(s, ks...)\<close>
  removes the handlers of the kinds in \<open>ks\<close>; a kind of \<open>s\<close> that is not in \<open>ks\<close>
  keeps its handler and \<^verbatim>\<open>Invoke\<close> still calls it; the other script ids keep all
  their handlers.
\<close>

theorem Unregister_removes_what_it_names:
  "Invoke s evt (fst (Unregister s [] z)) m = (Returns False, fst (Unregister s [] z), m, []) \<and>
   handler_for (fst (Unregister s [] z)) s k = None \<and>
   (k \<in> set ks \<longrightarrow> handler_for (fst (Unregister s ks z)) s k = None) \<and>
   (ks \<noteq> [] \<and> k \<notin> set ks \<and> handler_for z s k = Some h \<and> EventType (Events m a) = k \<longrightarrow>
      handler_for (fst (Unregister s ks z)) s k = Some h \<and>
      Invoke s (Some a) (fst (Unregister s ks z)) m =
        (fst (h (Some a) m), fst (Unregister s ks z), snd (h (Some a) m), [Call h (Some a)])) \<and>
   (s' \<noteq> s \<longrightarrow> handler_for (fst (Unregister s ks z)) s' k = handler_for z s' k)"
proof -
  have "Invoke s evt (fst (Unregister s [] z)) m = (Returns False, fst (Unregister s [] z), m, [])"
    using script_ids_Unregister_all by (rule Invoke_unknown)
  moreover have "Invoke s (Some a) (fst (Unregister s ks z)) m =
        (fst (h (Some a) m), fst (Unregister s ks z), snd (h (Some a) m), [Call h (Some a)])"
    if "ks \<noteq> []" "k \<notin> set ks" "handler_for z s k = Some h" "EventType (Events m a) = k"
  proof -
    have "handler_for (fst (Unregister s ks z)) s (EventType (Events m a)) = Some h"
      using that by (simp add: handler_for_Unregister)
    then show ?thesis by (rule Invoke_registered)
  qed
  ultimately show ?thesis
    by (simp add: handler_for_Unregister)
qed

theorem Unregister_removes_what_it_names_witness:
  "Invoke ''rat1'' (Some 0) (fst (Unregister ''rat1'' [] two_kinds_registry)) example_memory =
     (Returns False, fst (Unregister ''rat1'' [] two_kinds_registry), example_memory, []) \<and>
   EventSpawn \<in> set [EventSpawn] \<and>
   handler_for (fst (Unregister ''rat1'' [EventSpawn] two_kinds_registry)) ''rat1'' EventSpawn = None \<and>
   EventDeath \<notin> set [EventSpawn] \<and>
   handler_for two_kinds_registry ''rat1'' EventDeath = Some sets_flag \<and>
   EventType (Events example_memory 0) = EventDeath \<and>
   handler_for (fst (Unregister ''rat1'' [EventSpawn] two_kinds_registry)) ''rat1'' EventDeath
     = Some sets_flag \<and>
   Invoke ''rat1'' (Some 0) (fst (Unregister ''rat1'' [EventSpawn] two_kinds_registry)) example_memory =
     (Returns True, fst (Unregister ''rat1'' [EventSpawn] two_kinds_registry),
      example_memory\<lparr>Zone := True\<rparr>, [Call sets_flag (Some 0)]) \<and>
   ''goblin'' \<noteq> ''rat1'' \<and>
   handler_for (fst (Unregister ''rat1'' [EventSpawn] two_kinds_registry)) ''goblin'' EventSay
     = Some faulty"
proof -
  have kept: "[EventSpawn] \<noteq> [] \<and> EventDeath \<notin> set [EventSpawn] \<and>
      handler_for two_kinds_registry ''rat1'' EventDeath = Some sets_flag \<and>
      EventType (Events example_memory 0) = EventDeath"
    by (simp add: handler_for_two_kinds example_memory_kinds kinds_distinct)
  have gone: "EventSpawn \<in> set [EventSpawn]" by simp
  have other: "''goblin'' \<noteq> ''rat1''" by simp
  from Unregister_removes_what_it_names
      [where s = "''rat1''" and z = two_kinds_registry and evt = "Some 0" and m = example_memory
         and ks = "[EventSpawn]" and k = EventSpawn and s' = "''goblin''"]
    Unregister_removes_what_it_names
      [where s = "''rat1''" and z = two_kinds_registry and m = example_memory
         and ks = "[EventSpawn]" and k = EventDeath and h = sets_flag and a = 0]
    Unregister_removes_what_it_names
      [where s = "''rat1''" and z = two_kinds_registry
         and ks = "[EventSpawn]" and k = EventSay and s' = "''goblin''"]
    kept gone other
  show ?thesis
    by (simp add: handler_for_two_kinds sets_flag_def)
qed

text \<open>
  C8, as the code has it. Starting from the zero registry, a sequence of calls
  leaves no script id mapped to an empty map, at the start and after each call,
  exactly when every \<^verbatim>\<open>Register\<close> in it has arguments that begin with a kind and a
  handler or names a script id that has an entry when the call is made; no
  \<^verbatim>\<open>Unregister\<close> and no \<^verbatim>\<open>Invoke\<close> makes an empty entry. The registry at the end
  of such a sequence has no empty entry. Calls that panic are part of the
  sequences.
\<close>

theorem no_empty_residue_preserved:
  "no_empty_residue_along ops (ZoneQuestInterface_zero, m) =
     fills_or_finds_along ops (ZoneQuestInterface_zero, m) \<and>
   (fills_or_finds_along ops (ZoneQuestInterface_zero, m) \<longrightarrow>
      no_empty_residue (fst (run ops (ZoneQuestInterface_zero, m))))"
proof -
  have both: "no_empty_residue_along ops (ZoneQuestInterface_zero, m) =
      fills_or_finds_along ops (ZoneQuestInterface_zero, m)"
    by (simp add: no_empty_residue_along_iff no_empty_residue_zero)
  moreover have "no_empty_residue (fst (run ops (ZoneQuestInterface_zero, m)))"
    if "fills_or_finds_along ops (ZoneQuestInterface_zero, m)"
    using that both no_empty_residue_along_last by blast
  ultimately show ?thesis by simp
qed

text \<open>
  A sequence with a \<^verbatim>\<open>Register\<close> that panics after installing a pair and a
  \<^verbatim>\<open>Register\<close> with no pair for a script id that has an entry; and the one-call
  sequence \<^verbatim>\<open>Register("x")\<close>, which fails both sides of the equivalence.
\<close>

theorem no_empty_residue_preserved_witness:
  "fills_or_finds_along
     [OpRegister ''rat1'' [QuestEventTypeV EventDeath, QuestHandlerV sets_flag, QuestEventTypeV EventSpawn],
      OpRegister ''rat1'' [],
      OpInvoke ''rat1'' (Some 0),
      OpUnregister ''rat1'' [EventDeath],
      OpRegister ''goblin'' [QuestEventTypeV EventSay, FuncV declines]]
     (ZoneQuestInterface_zero, example_memory) \<and>
   no_empty_residue_along
     [OpRegister ''rat1'' [QuestEventTypeV EventDeath, QuestHandlerV sets_flag, QuestEventTypeV EventSpawn],
      OpRegister ''rat1'' [],
      OpInvoke ''rat1'' (Some 0),
      OpUnregister ''rat1'' [EventDeath],
      OpRegister ''goblin'' [QuestEventTypeV EventSay, FuncV declines]]
     (ZoneQuestInterface_zero, example_memory) \<and>
   fst (run
     [OpRegister ''rat1'' [QuestEventTypeV EventDeath, QuestHandlerV sets_flag, QuestEventTypeV EventSpawn],
      OpRegister ''rat1'' [],
      OpInvoke ''rat1'' (Some 0),
      OpUnregister ''rat1'' [EventDeath],
      OpRegister ''goblin'' [QuestEventTypeV EventSay, FuncV declines]]
     (ZoneQuestInterface_zero, example_memory)) =
     \<lparr>ZoneAccess = None, Handlers = Some [''goblin'' \<mapsto> [EventSay \<mapsto> declines]]\<rparr> \<and>
   no_empty_residue \<lparr>ZoneAccess = None, Handlers = Some [''goblin'' \<mapsto> [EventSay \<mapsto> declines]]\<rparr> \<and>
   \<not> fills_or_finds_along [OpRegister ''x'' []] (ZoneQuestInterface_zero, example_memory) \<and>
   \<not> no_empty_residue_along [OpRegister ''x'' []] (ZoneQuestInterface_zero, example_memory)"
proof -
  let ?ops = "[OpRegister ''rat1''
                 [QuestEventTypeV EventDeath, QuestHandlerV sets_flag, QuestEventTypeV EventSpawn],
               OpRegister ''rat1'' [],
               OpInvoke ''rat1'' (Some 0),
               OpUnregister ''rat1'' [EventDeath],
               OpRegister ''goblin'' [QuestEventTypeV EventSay, FuncV declines]] :: bool op list"
  have good: "fills_or_finds_along ?ops (ZoneQuestInterface_zero, example_memory)"
    by (simp add: script_ids_def Register_def Register_loop.simps Unregister_def Invoke_def
        ZoneQuestInterface_zero_def example_memory_def sets_flag_def QuestEvent_zero_def)
  have result: "fst (run ?ops (ZoneQuestInterface_zero, example_memory)) =
     \<lparr>ZoneAccess = None, Handlers = Some [''goblin'' \<mapsto> [EventSay \<mapsto> declines]]\<rparr>"
    by (simp add: run_def Register_def Register_loop.simps Unregister_def Invoke_def
        ZoneQuestInterface_zero_def example_memory_def sets_flag_def QuestEvent_zero_def)
  have bad: "\<not> fills_or_finds_along [OpRegister ''x'' []]
      (ZoneQuestInterface_zero :: bool ZoneQuestInterface, example_memory)"
    by (simp add: script_ids_zero)
  from no_empty_residue_preserved [of ?ops example_memory]
    no_empty_residue_preserved [of "[OpRegister ''x'' []]" example_memory]
    good result bad
  show ?thesis by simp
qed

text \<open>
  C8 as the specification states it fails: \<^verbatim>\<open>Register("x")\<close> with no pairs makes
  the inner map of \<open>x\<close> and installs nothing in it.
\<close>

theorem no_empty_residue_counterexample:
  "fst (run [OpRegister ''x'' []] (ZoneQuestInterface_zero, example_memory)) =
     \<lparr>ZoneAccess = None, Handlers = Some [''x'' \<mapsto> Map.empty]\<rparr> \<and>
   \<not> no_empty_residue (fst (run [OpRegister ''x'' []] (ZoneQuestInterface_zero, example_memory)))"
  by (simp add: run_def Register_def Register_loop.simps ZoneQuestInterface_zero_def
      no_empty_residue_def)

subsection \<open>Event records\<close>

text \<open>
  C9. \<^verbatim>\<open>Reset\<close> on a record returns the pointer it was called on and changes no
  other record (and writes no array); afterwards every field of the record is
  zero, nil or empty, the string slice is nil and shows no element whatever the
  arrays hold, and the record is the same whatever the store held before.
\<close>

theorem Reset_zeroes_the_record:
  "fst (Reset (Some a) h) = Returns (Some a) \<and>
   snd (Reset (Some a) h) = h(a := snd (Reset (Some a) h) a) \<and>
   snd (Reset (Some a) h) a = snd (Reset (Some a) h') a \<and>
   EventType (snd (Reset (Some a) h) a) = 0 \<and>
   Actor (snd (Reset (Some a) h) a) = None \<and>
   Receiver (snd (Reset (Some a) h) a) = None \<and>
   Item (snd (Reset (Some a) h) a) = None \<and>
   ZoneData (snd (Reset (Some a) h) a) = None \<and>
   EncounterName (snd (Reset (Some a) h) a) = [] \<and>
   ExtraData (snd (Reset (Some a) h) a) = 0 \<and>
   SpellID (snd (Reset (Some a) h) a) = 0 \<and>
   ItemArray (snd (Reset (Some a) h) a) = None \<and>
   ActorArray (snd (Reset (Some a) h) a) = None \<and>
   StringArray (snd (Reset (Some a) h) a) = None \<and>
   elements A (StringArray (snd (Reset (Some a) h) a)) = []"
  by (simp add: Reset_def store_def QuestEvent_zero_def elements_def)

text \<open>
  C10. Each setter returns the pointer it was called on, and the records after it
  are the records before it with the one named field of the receiver's record
  replaced: by the argument for the six plain setters, and for \<^verbatim>\<open>Strings\<close> by a
  slice that shows, element for element, exactly the values given.
\<close>

theorem setters_store_one_field:
  "Type (Some a) t h = (Returns (Some a), h(a := (h a)\<lparr>EventType := t\<rparr>)) \<and>
   SetActor (Some a) actor h = (Returns (Some a), h(a := (h a)\<lparr>Actor := actor\<rparr>)) \<and>
   SetReceiver (Some a) receiver h = (Returns (Some a), h(a := (h a)\<lparr>Receiver := receiver\<rparr>)) \<and>
   Spell (Some a) sid h = (Returns (Some a), h(a := (h a)\<lparr>SpellID := sid\<rparr>)) \<and>
   Extra (Some a) d h = (Returns (Some a), h(a := (h a)\<lparr>ExtraData := d\<rparr>)) \<and>
   Encounter (Some a) name h = (Returns (Some a), h(a := (h a)\<lparr>EncounterName := name\<rparr>)) \<and>
   fst (Strings grow (Some a) vals h A) = Returns (Some a) \<and>
   fst (snd (Strings grow (Some a) vals h A)) =
     h(a := (h a)\<lparr>StringArray := StringArray (fst (snd (Strings grow (Some a) vals h A)) a)\<rparr>) \<and>
   elements (snd (snd (Strings grow (Some a) vals h A)))
     (StringArray (fst (snd (Strings grow (Some a) vals h A)) a)) = vals"
proof -
  have "fst (Strings grow (Some a) vals h A) = Returns (Some a)"
    by (simp add: Strings_def Let_def split: prod.splits)
  moreover have "fst (snd (Strings grow (Some a) vals h A)) =
     h(a := (h a)\<lparr>StringArray := StringArray (fst (snd (Strings grow (Some a) vals h A)) a)\<rparr>)"
    by (simp add: Strings_def Let_def split: prod.splits)
  moreover have "elements (snd (snd (Strings grow (Some a) vals h A)))
     (StringArray (fst (snd (Strings grow (Some a) vals h A)) a)) = vals"
    using elements_go_append[of grow "reslice0 (StringArray (h a))" vals A]
    by (auto simp: Strings_def Let_def elements_reslice0 split: prod.splits)
  ultimately show ?thesis
    by (simp add: Type_def SetActor_def SetReceiver_def Spell_def Extra_def Encounter_def
        store_def)
qed

end
